theory Spec2Isabelle
  imports Main
begin

section \<open>Strings, formatting and joining\<close>

text \<open>
  A Go string is a sequence of bytes; it is modelled as a \<open>string\<close>, one \<open>char\<close> per byte.
  An error is observed only through its message (the handlers format it with \<open>%s\<close>), so
  an error value is its message.
\<close>

type_synonym error = string

definition newline :: char where
  "newline = CHR 0x0A"

definition dquote :: char where
  "dquote = CHR 0x22"

text \<open>
  \<open>fmt.Sprintf\<close>, for the formats of this program: every verb is \<open>%s\<close> and every operand
  is a string, which \<open>%s\<close> copies unchanged. A verb with no operand left prints
  \<open>%!s(MISSING)\<close>, as in Go. Any other byte of the format is copied.
\<close>

fun Sprintf :: "string \<Rightarrow> string list \<Rightarrow> string" where
  "Sprintf [] args = []"
| "Sprintf [c] args = [c]"
| "Sprintf (c # d # fs) args =
     (if c = CHR ''%'' \<and> d = CHR ''s'' then
        (case args of
           [] \<Rightarrow> ''%!s(MISSING)'' @ Sprintf fs []
         | a # as \<Rightarrow> a @ Sprintf fs as)
      else c # Sprintf (d # fs) args)"

text \<open>\<open>strings.Join\<close>: the elements, with the separator between neighbours.\<close>

fun Join :: "string list \<Rightarrow> string \<Rightarrow> string" where
  "Join [] sep = []"
| "Join [x] sep = x"
| "Join (x # y # ys) sep = x @ sep @ Join (y # ys) sep"

section \<open>Regular expressions\<close>

text \<open>
  The two patterns of the program are values of a small syntax tree, named after the
  operators of Go's \<open>regexp/syntax\<close>. A character class is a list of inclusive ranges of
  ASCII codes; no rune outside ASCII belongs to such a class, so membership is decided by
  the next byte alone.
\<close>

datatype regex =
    BeginText
  | EndText
  | CharClass "(nat \<times> nat) list"
  | Literal char
  | AnyCharNotNL
  | Concat regex regex
  | Plus regex
  | Quest regex

definition in_class :: "(nat \<times> nat) list \<Rightarrow> char \<Rightarrow> bool" where
  "in_class rs c = list_ex (\<lambda>(lo, hi). lo \<le> of_char c \<and> (of_char c :: nat) \<le> hi) rs"

text \<open>
  The matcher reads runes, as \<open>utf8.DecodeRuneInString\<close> delivers them: \<open>first\<close> gives, for
  a leading byte of a multi-byte sequence, the length of the sequence and the range
  accepted for its second byte; \<open>rune_width\<close> is the number of bytes of the next rune,
  which is 1 for an ASCII byte and for a byte that starts no well-formed sequence (the
  rune is then U+FFFD).
\<close>

definition first :: "nat \<Rightarrow> (nat \<times> nat \<times> nat) option" where
  "first x =
     (if 0xC2 \<le> x \<and> x \<le> 0xDF then Some (2, 0x80, 0xBF)
      else if x = 0xE0 then Some (3, 0xA0, 0xBF)
      else if 0xE1 \<le> x \<and> x \<le> 0xEC then Some (3, 0x80, 0xBF)
      else if x = 0xED then Some (3, 0x80, 0x9F)
      else if 0xEE \<le> x \<and> x \<le> 0xEF then Some (3, 0x80, 0xBF)
      else if x = 0xF0 then Some (4, 0x90, 0xBF)
      else if 0xF1 \<le> x \<and> x \<le> 0xF3 then Some (4, 0x80, 0xBF)
      else if x = 0xF4 then Some (4, 0x80, 0x8F)
      else None)"

definition between :: "nat \<Rightarrow> nat \<Rightarrow> char \<Rightarrow> bool" where
  "between lo hi c = (lo \<le> of_char c \<and> (of_char c :: nat) \<le> hi)"

fun rune_width :: "string \<Rightarrow> nat" where
  "rune_width [] = 0"
| "rune_width (s0 # rest) =
     (if (of_char s0 :: nat) < 0x80 then 1
      else
        (case first (of_char s0) of
           None \<Rightarrow> 1
         | Some (sz, lo, hi) \<Rightarrow>
             if length (s0 # rest) < sz then 1
             else if \<not> between lo hi (rest ! 0) then 1
             else if sz \<le> 2 then 2
             else if \<not> between 0x80 0xBF (rest ! 1) then 1
             else if sz \<le> 3 then 3
             else if \<not> between 0x80 0xBF (rest ! 2) then 1
             else 4))"

text \<open>
  A position is the text still to be read and whether it is the whole text. \<open>step r p\<close>
  lists the positions at which a match of \<open>r\<close> that begins at \<open>p\<close> can end. Neither pattern
  sets a flag, so \<open>^\<close> and \<open>$\<close> are the beginning and the end of the text and \<open>.\<close> is any
  rune but the newline. A match of \<open>r+\<close> is a match of \<open>r\<close>, again and again: as a round that
  reads nothing leads nowhere new, one round more than the bytes left reaches every end.
\<close>

type_synonym pos = "bool \<times> string"

fun iterate :: "(pos \<Rightarrow> pos list) \<Rightarrow> nat \<Rightarrow> pos \<Rightarrow> pos list" where
  "iterate f 0 p = []"
| "iterate f (Suc n) p = f p @ concat (map (iterate f n) (f p))"

fun step :: "regex \<Rightarrow> pos \<Rightarrow> pos list" where
  "step BeginText p = (if fst p then [p] else [])"
| "step EndText p = (if snd p = [] then [p] else [])"
| "step (CharClass rs) p =
     (case snd p of
        [] \<Rightarrow> []
      | c # cs \<Rightarrow> if in_class rs c then [(False, cs)] else [])"
| "step (Literal l) p =
     (case snd p of
        [] \<Rightarrow> []
      | c # cs \<Rightarrow> if c = l then [(False, cs)] else [])"
| "step AnyCharNotNL p =
     (case snd p of
        [] \<Rightarrow> []
      | c # cs \<Rightarrow> if c = newline then [] else [(False, drop (rune_width (c # cs)) (c # cs))])"
| "step (Concat r1 r2) p = concat (map (step r2) (step r1 p))"
| "step (Plus r) p = iterate (step r) (Suc (length (snd p))) p"
| "step (Quest r) p = step r p @ [p]"

text \<open>
  \<open>MatchString\<close> reports whether the text contains a match: the search may begin at the
  start of the text and after each rune of it.
\<close>

fun starts :: "bool \<Rightarrow> nat \<Rightarrow> string \<Rightarrow> pos list" where
  "starts b n [] = [(b, [])]"
| "starts b 0 (c # cs) = (b, c # cs) # starts False (rune_width (c # cs) - 1) cs"
| "starts b (Suc n) (c # cs) = starts b n cs"

definition MatchString :: "regex \<Rightarrow> string \<Rightarrow> bool" where
  "MatchString re s = list_ex (\<lambda>p. step re p \<noteq> []) (starts True 0 s)"

subsection \<open>The patterns of the program\<close>

text \<open>
  \<open>\w\<close> is \<open>[0-9A-Za-z_]\<close> and \<open>\d\<close> is \<open>[0-9]\<close>. The class of \<open>textRegex\<close>,
  \<open>[\w\-/]\<close>, adds the hyphen (45) and the slash (47).
\<close>

definition word_class :: "(nat \<times> nat) list" where
  "word_class = [(48, 57), (65, 90), (95, 95), (97, 122)]"

definition digit_class :: "(nat \<times> nat) list" where
  "digit_class = [(48, 57)]"

definition textRegex :: regex where
  "textRegex =
     Concat BeginText (Concat (Plus (CharClass (word_class @ [(45, 45), (47, 47)]))) EndText)"

definition valueRegex :: regex where
  "valueRegex =
     Concat BeginText
       (Concat (Plus (CharClass digit_class))
          (Concat (Quest (Concat AnyCharNotNL (Literal (CHR ''+'')))) EndText))"

section \<open>Metrics and metric files\<close>

text \<open>
  The tags of a metric are a Go map. The map is modelled by its entries, keys distinct,
  listed in the order in which \<open>range\<close> visits them; Go leaves that order open, so a
  statement about every metric is a statement about every order of iteration.
\<close>

record metric =
  Name :: string
  Type :: string
  Tags :: "(string \<times> string) list"
  Value :: string

record metricFile =
  FileName :: string
  Metrics :: "metric list"

fun tagStrings :: "(string \<times> string) list \<Rightarrow> string list \<Rightarrow> string list" where
  "tagStrings [] acc = acc"
| "tagStrings ((k, v) # kvs) acc =
     tagStrings kvs (acc @ [Sprintf (''%s='' @ [dquote] @ ''%s'' @ [dquote]) [k, v]])"

definition TagString :: "metric \<Rightarrow> string" where
  "TagString m =
     (if length (Tags m) = 0 then []
      else Sprintf ''{%s}'' [Join (tagStrings (Tags m) []) '',''])"

definition metric_String :: "metric \<Rightarrow> string" where
  "metric_String m =
     Sprintf (''# TYPE %s %s'' @ [newline] @ ''%s%s %s'' @ [newline, newline])
       [Name m, Type m, Name m, TagString m, Value m]"

fun validate_tags :: "(string \<times> string) list \<Rightarrow> bool" where
  "validate_tags [] = True"
| "validate_tags ((k, v) # kvs) =
     (if \<not> MatchString textRegex k then False
      else if \<not> MatchString textRegex v then False
      else validate_tags kvs)"

definition metric_Validate :: "metric \<Rightarrow> bool" where
  "metric_Validate m =
     (if \<not> MatchString textRegex (Name m) then False
      else if \<not> MatchString textRegex (Type m) then False
      else if \<not> MatchString valueRegex (Value m) then False
      else validate_tags (Tags m))"

fun metricFile_String_loop :: "metric list \<Rightarrow> string \<Rightarrow> string" where
  "metricFile_String_loop [] sb = sb"
| "metricFile_String_loop (x # xs) sb = metricFile_String_loop xs (sb @ metric_String x)"

definition metricFile_String :: "metricFile \<Rightarrow> string" where
  "metricFile_String mf = metricFile_String_loop (Metrics mf) []"

fun validate_metrics :: "metric list \<Rightarrow> bool" where
  "validate_metrics [] = True"
| "validate_metrics (x # xs) = (if \<not> metric_Validate x then False else validate_metrics xs)"

definition metricFile_Validate :: "metricFile \<Rightarrow> bool" where
  "metricFile_Validate mf = (if FileName mf = [] then False else validate_metrics (Metrics mf))"

section \<open>Collaborators\<close>

text \<open>
  The object store, the JSON codec and the loading of the AWS configuration are outside
  the repository; each is a field of \<open>world\<close>, so every statement below holds whatever they
  do.
  \<^item> \<open>LoadDefaultConfig\<close>: the error of \<open>awsConfig.LoadDefaultConfig\<close>, if any.
  \<^item> \<open>NextPage\<close>: for a bucket, the outcomes of the successive \<open>NextPage\<close> calls of the
    listing paginator, as long as \<open>HasMorePages\<close> holds: an error, or the keys of the page.
  \<^item> \<open>GetObject\<close>: for a bucket and a key, an error, or a body; the body is what
    \<open>io.ReadAll\<close> makes of it, an error or the bytes.
  \<^item> \<open>PutObject\<close>: for a bucket, a key and a content, the error of the write, if any.
  \<^item> \<open>Unmarshal\<close>, \<open>Marshal\<close>: \<open>json.Unmarshal\<close> into a \<open>metricFile\<close> and
    \<open>json.Marshal\<close> of one.
\<close>

record world =
  LoadDefaultConfig :: "error option"
  NextPage :: "string \<Rightarrow> (error + string list) list"
  GetObject :: "string \<Rightarrow> string \<Rightarrow> error + (error + string)"
  PutObject :: "string \<Rightarrow> string \<Rightarrow> string \<Rightarrow> error option"
  Unmarshal :: "string \<Rightarrow> error + metricFile"
  Marshal :: "metricFile \<Rightarrow> error + string"

record config =
  AuthToken :: string
  MetricBucket :: string

text \<open>
  A request is seen through \<open>DecodedBody\<close> alone. A response is one of the two that the
  handlers build, with its body.
\<close>

record request =
  DecodedBody :: "error + string"

datatype response = Fail string | Succeed string

section \<open>The read path\<close>

text \<open>
  A Go function that returns \<open>(metricFile, error)\<close> returns both values; the model returns
  the pair, with \<open>None\<close> for a nil error. \<open>zero_metricFile\<close> is \<open>metricFile{}\<close>.
\<close>

definition zero_metricFile :: metricFile where
  "zero_metricFile = \<lparr>FileName = [], Metrics = []\<rparr>"

fun listMetricFiles_loop :: "(error + string list) list \<Rightarrow> string list \<Rightarrow> string list \<times> error option" where
  "listMetricFiles_loop [] metricFiles = (metricFiles, None)"
| "listMetricFiles_loop (Inl err # pages) metricFiles = ([], Some err)"
| "listMetricFiles_loop (Inr contents # pages) metricFiles =
     listMetricFiles_loop pages (metricFiles @ contents)"

definition listMetricFiles :: "world \<Rightarrow> config \<Rightarrow> string list \<times> error option" where
  "listMetricFiles w c = listMetricFiles_loop (NextPage w (MetricBucket c)) []"

definition readMetricFile :: "world \<Rightarrow> config \<Rightarrow> string \<Rightarrow> metricFile \<times> error option" where
  "readMetricFile w c f =
     (case GetObject w (MetricBucket c) f of
        Inl err \<Rightarrow> (zero_metricFile, Some err)
      | Inr result \<Rightarrow>
          (case result of
             Inl err \<Rightarrow> (zero_metricFile, Some err)
           | Inr body \<Rightarrow>
               (case Unmarshal w body of
                  Inl err \<Rightarrow> (zero_metricFile, Some err)
                | Inr mf \<Rightarrow>
                    if \<not> metricFile_Validate mf
                    then (zero_metricFile, Some (Sprintf ''failed validation for %s'' [f]))
                    else (mf, None))))"

fun readMetrics_loop :: "world \<Rightarrow> config \<Rightarrow> string list \<Rightarrow> metricFile \<Rightarrow> metricFile \<times> error option" where
  "readMetrics_loop w c [] allMetrics = (allMetrics, None)"
| "readMetrics_loop w c (f # files) allMetrics =
     (case readMetricFile w c f of
        (mf, Some err) \<Rightarrow> (zero_metricFile, Some err)
      | (mf, None) \<Rightarrow>
          readMetrics_loop w c files (allMetrics\<lparr>Metrics := Metrics allMetrics @ Metrics mf\<rparr>))"

definition readMetrics :: "world \<Rightarrow> config \<Rightarrow> metricFile \<times> error option" where
  "readMetrics w c =
     (case listMetricFiles w c of
        (files, Some err) \<Rightarrow> (zero_metricFile, Some err)
      | (files, None) \<Rightarrow>
          readMetrics_loop w c files \<lparr>FileName = ''__all__'', Metrics = []\<rparr>)"

text \<open>
  \<open>getClient\<close> loads the configuration and builds the client from it; the client is
  the access to the store operations of \<open>world\<close>, so what is left of the result is the
  error.
\<close>

definition getClient :: "world \<Rightarrow> error option" where
  "getClient w = LoadDefaultConfig w"

definition indexHandler :: "world \<Rightarrow> config \<Rightarrow> response" where
  "indexHandler w c =
     (case getClient w of
        Some err \<Rightarrow> Fail (Sprintf ''failed to load client: %s'' [err])
      | None \<Rightarrow>
          (case readMetrics w c of
             (allMetrics, Some err) \<Rightarrow> Fail (Sprintf ''failed to read metrics: %s'' [err])
           | (allMetrics, None) \<Rightarrow> Succeed (metricFile_String allMetrics)))"

section \<open>The ingest path\<close>

text \<open>
  The handler's effect is its calls of \<open>PutObject\<close>: it returns the response and the
  calls it made (bucket, key, content), in order.
\<close>

type_synonym put = "string \<times> string \<times> string"

definition metricHandler :: "world \<Rightarrow> config \<Rightarrow> request \<Rightarrow> response \<times> put list" where
  "metricHandler w c req =
     (case DecodedBody req of
        Inl err \<Rightarrow> (Fail (Sprintf ''failed to decode: %s'' [err]), [])
      | Inr body \<Rightarrow>
          (case Unmarshal w body of
             Inl err \<Rightarrow> (Fail (Sprintf ''failed to unmarshal: %s'' [err]), [])
           | Inr mf \<Rightarrow>
               if \<not> metricFile_Validate mf then (Fail ''failed validation'', [])
               else
                 (case Marshal w mf of
                    Inl err \<Rightarrow> (Fail (Sprintf ''failed to marshal: %s'' [err]), [])
                  | Inr content \<Rightarrow>
                      (case getClient w of
                         Some err \<Rightarrow> (Fail (Sprintf ''failed to load client: %s'' [err]), [])
                       | None \<Rightarrow>
                           (case PutObject w (MetricBucket c) (FileName mf) content of
                              Some err \<Rightarrow>
                                (Fail (Sprintf ''failed to write: %s'' [err]),
                                 [(MetricBucket c, FileName mf, content)])
                            | None \<Rightarrow>
                                (Succeed [], [(MetricBucket c, FileName mf, content)]))))))"

section \<open>Stored objects and an example store\<close>

text \<open>
  \<open>decoded w c f\<close> is the metric file that \<open>json.Unmarshal\<close> makes of the stored object
  \<open>f\<close>, when the fetch, the read of its body and the decoding all succeed.
\<close>

definition decoded :: "world \<Rightarrow> config \<Rightarrow> string \<Rightarrow> metricFile option" where
  "decoded w c f =
     (case GetObject w (MetricBucket c) f of
        Inr (Inr body) \<Rightarrow> (case Unmarshal w body of Inr mf \<Rightarrow> Some mf | Inl err \<Rightarrow> None)
      | Inr (Inl err) \<Rightarrow> None
      | Inl err \<Rightarrow> None)"

text \<open>
  The example of the specification: a bucket with the objects \<open>a\<close> and \<open>b\<close>, listed on
  one page; \<open>a\<close> holds the gauge \<open>up\<close> with value 1 and \<open>b\<close> the gauge \<open>down\<close> with value
  0. A third body, \<open>doc-x\<close>, decodes to a file whose name is empty, and any other body
  does not decode. The codec of the example is a table from bodies to files.
\<close>

definition metric_up :: metric where
  "metric_up = \<lparr>Name = ''up'', Type = ''gauge'', Tags = [], Value = ''1''\<rparr>"

definition metric_down :: metric where
  "metric_down = \<lparr>Name = ''down'', Type = ''gauge'', Tags = [], Value = ''0''\<rparr>"

definition example_config :: config where
  "example_config = \<lparr>AuthToken = ''secret'', MetricBucket = ''bucket''\<rparr>"

definition example_Unmarshal :: "string \<Rightarrow> error + metricFile" where
  "example_Unmarshal body =
     (if body = ''doc-a'' then Inr \<lparr>FileName = ''a'', Metrics = [metric_up]\<rparr>
      else if body = ''doc-b'' then Inr \<lparr>FileName = ''b'', Metrics = [metric_down]\<rparr>
      else if body = ''doc-x'' then Inr \<lparr>FileName = [], Metrics = [metric_up]\<rparr>
      else Inl ''unexpected end of JSON input'')"

definition example_GetObject :: "string \<Rightarrow> string \<Rightarrow> error + (error + string)" where
  "example_GetObject bucket key =
     (if bucket = ''bucket'' \<and> key = ''a'' then Inr (Inr ''doc-a'')
      else if bucket = ''bucket'' \<and> key = ''b'' then Inr (Inr ''doc-b'')
      else if bucket = ''bucket'' \<and> key = ''x'' then Inr (Inr ''doc-x'')
      else if bucket = ''bucket'' \<and> key = ''y'' then Inr (Inr ''{'')
      else Inl ''NoSuchKey'')"

definition example_world :: "string list \<Rightarrow> world" where
  "example_world keys =
     \<lparr>LoadDefaultConfig = None,
      NextPage = (\<lambda>bucket. if bucket = ''bucket'' then [Inr keys] else [Inl ''NoSuchBucket'']),
      GetObject = example_GetObject,
      PutObject = (\<lambda>bucket key content. None),
      Unmarshal = example_Unmarshal,
      Marshal = (\<lambda>mf. Inr (''doc-'' @ FileName mf))\<rparr>"

section \<open>Properties of the patterns\<close>

subsection \<open>Anchors and repetition\<close>

lemma starts_False: "p \<in> set (starts b n s) \<Longrightarrow> \<not> b \<Longrightarrow> \<not> fst p"
  by (induction b n s rule: starts.induct) (auto simp del: rune_width.simps)

lemma starts_True: "\<exists>ps. starts True 0 s = (True, s) # ps \<and> (\<forall>p \<in> set ps. \<not> fst p)"
  by (cases s) (auto simp del: rune_width.simps dest: starts_False)

lemma MatchString_BeginText:
  "MatchString (Concat BeginText r) s \<longleftrightarrow> step r (True, s) \<noteq> []"
proof -
  obtain ps where ps: "starts True 0 s = (True, s) # ps" "\<forall>p \<in> set ps. \<not> fst p"
    using starts_True by blast
  then show ?thesis
    by (auto simp: MatchString_def list_ex_iff)
qed

lemma step_Concat_nonempty:
  "step (Concat r1 r2) p \<noteq> [] \<longleftrightarrow> (\<exists>q \<in> set (step r1 p). step r2 q \<noteq> [])"
  by auto

lemma step_EndText_nonempty: "step EndText q \<noteq> [] \<longleftrightarrow> snd q = []"
  by simp

lemma iterate_CharClass:
  "q \<in> set (iterate (step (CharClass rs)) n (b, s)) \<longleftrightarrow>
     (\<exists>ds. ds \<noteq> [] \<and> length ds \<le> n \<and> (\<forall>c \<in> set ds. in_class rs c) \<and> s = ds @ snd q \<and> \<not> fst q)"
proof (induction n arbitrary: b s)
  case 0
  then show ?case by simp
next
  case (Suc n)
  show ?case
  proof (cases s)
    case Nil
    then show ?thesis by simp
  next
    case (Cons c cs)
    show ?thesis
    proof (cases "in_class rs c")
      case False
      with Cons show ?thesis by (auto simp: Cons_eq_append_conv)
    next
      case True
      have "q \<in> set (iterate (step (CharClass rs)) (Suc n) (b, s)) \<longleftrightarrow>
          q = (False, cs) \<or> q \<in> set (iterate (step (CharClass rs)) n (False, cs))"
        using Cons True by simp
      also have "\<dots> \<longleftrightarrow> q = (False, cs) \<or>
          (\<exists>ds. ds \<noteq> [] \<and> length ds \<le> n \<and> (\<forall>c \<in> set ds. in_class rs c) \<and> cs = ds @ snd q \<and> \<not> fst q)"
        by (simp only: Suc.IH)
      also have "\<dots> \<longleftrightarrow>
          (\<exists>ds. ds \<noteq> [] \<and> length ds \<le> Suc n \<and> (\<forall>c \<in> set ds. in_class rs c) \<and> s = ds @ snd q \<and> \<not> fst q)"
        (is "?L \<longleftrightarrow> ?R")
      proof
        assume ?L
        then show ?R
        proof
          assume "q = (False, cs)"
          with Cons True show ?R by (intro exI [of _ "[c]"]) simp
        next
          assume "\<exists>ds. ds \<noteq> [] \<and> length ds \<le> n \<and> (\<forall>c \<in> set ds. in_class rs c) \<and> cs = ds @ snd q \<and> \<not> fst q"
          then obtain ds where "ds \<noteq> []" "length ds \<le> n" "\<forall>c \<in> set ds. in_class rs c"
            "cs = ds @ snd q" "\<not> fst q" by blast
          with Cons True show ?R by (intro exI [of _ "c # ds"]) simp
        qed
      next
        assume ?R
        then obtain ds where ds: "ds \<noteq> []" "length ds \<le> Suc n" "\<forall>c \<in> set ds. in_class rs c"
          "s = ds @ snd q" "\<not> fst q" by blast
        from ds(1) obtain d ds' where dd: "ds = d # ds'" by (cases ds) auto
        with ds(4) Cons have eq: "d = c" "cs = ds' @ snd q" by auto
        show ?L
        proof (cases ds')
          case Nil
          with eq ds(5) have "q = (False, cs)" by (cases q) simp
          then show ?thesis by simp
        next
          case (Cons e es)
          with dd ds eq show ?thesis by auto
        qed
      qed
      finally show ?thesis .
    qed
  qed
qed

lemma step_textRegex:
  "step (Concat (Plus (CharClass rs)) EndText) (True, s) \<noteq> [] \<longleftrightarrow>
     (\<exists>q \<in> set (iterate (step (CharClass rs)) (Suc (length s)) (True, s)). snd q = [])"
  unfolding step_Concat_nonempty step_EndText_nonempty
  by (simp only: step.simps snd_conv)

lemma iterate_CharClass_end:
  "(\<exists>q \<in> set (iterate (step (CharClass rs)) (Suc (length s)) (True, s)). snd q = []) \<longleftrightarrow>
     s \<noteq> [] \<and> (\<forall>c \<in> set s. in_class rs c)"
proof
  assume "\<exists>q \<in> set (iterate (step (CharClass rs)) (Suc (length s)) (True, s)). snd q = []"
  then obtain q where "q \<in> set (iterate (step (CharClass rs)) (Suc (length s)) (True, s))" "snd q = []"
    by blast
  then obtain ds where "ds \<noteq> []" "\<forall>c \<in> set ds. in_class rs c" "s = ds @ snd q"
    unfolding iterate_CharClass by blast
  with \<open>snd q = []\<close> show "s \<noteq> [] \<and> (\<forall>c \<in> set s. in_class rs c)" by simp
next
  assume a: "s \<noteq> [] \<and> (\<forall>c \<in> set s. in_class rs c)"
  have "(False, []) \<in> set (iterate (step (CharClass rs)) (Suc (length s)) (True, s))"
    unfolding iterate_CharClass using a by (intro exI [of _ s]) simp
  then show "\<exists>q \<in> set (iterate (step (CharClass rs)) (Suc (length s)) (True, s)). snd q = []"
    by (intro bexI [of _ "(False, [])"]) simp_all
qed

lemma MatchString_textRegex:
  "MatchString textRegex s \<longleftrightarrow>
     s \<noteq> [] \<and> (\<forall>c \<in> set s. in_class (word_class @ [(45, 45), (47, 47)]) c)"
  unfolding textRegex_def MatchString_BeginText step_textRegex iterate_CharClass_end ..

subsection \<open>The value pattern\<close>

lemma step_Any_Literal:
  "q' \<in> set (step (Concat AnyCharNotNL (Literal l)) q) \<longleftrightarrow>
     snd q \<noteq> [] \<and> hd (snd q) \<noteq> newline \<and>
     drop (rune_width (snd q)) (snd q) = l # snd q' \<and> \<not> fst q'"
proof (cases "snd q")
  case Nil
  then show ?thesis by simp
next
  case (Cons c cs)
  show ?thesis
  proof (cases "c = newline")
    case True
    with Cons show ?thesis by simp
  next
    case False
    with Cons show ?thesis
      by (cases q'; cases "drop (rune_width (c # cs)) (c # cs)")
        (auto simp del: rune_width.simps)
  qed
qed

lemma step_Quest_tail:
  "step (Concat (Quest (Concat AnyCharNotNL (Literal l))) EndText) q \<noteq> [] \<longleftrightarrow>
     snd q = [] \<or>
     (snd q \<noteq> [] \<and> hd (snd q) \<noteq> newline \<and> drop (rune_width (snd q)) (snd q) = [l])"
proof -
  have "step (Concat (Quest (Concat AnyCharNotNL (Literal l))) EndText) q \<noteq> [] \<longleftrightarrow>
      (\<exists>q' \<in> set (step (Concat AnyCharNotNL (Literal l)) q @ [q]). snd q' = [])"
    unfolding step_Concat_nonempty step_EndText_nonempty by (simp only: step.simps)
  also have "\<dots> \<longleftrightarrow> (\<exists>q' \<in> set (step (Concat AnyCharNotNL (Literal l)) q). snd q' = []) \<or> snd q = []"
    by auto
  also have "(\<exists>q' \<in> set (step (Concat AnyCharNotNL (Literal l)) q). snd q' = []) \<longleftrightarrow>
      (snd q \<noteq> [] \<and> hd (snd q) \<noteq> newline \<and> drop (rune_width (snd q)) (snd q) = [l])"
  proof
    assume "\<exists>q' \<in> set (step (Concat AnyCharNotNL (Literal l)) q). snd q' = []"
    then obtain q' where "q' \<in> set (step (Concat AnyCharNotNL (Literal l)) q)" "snd q' = []"
      by blast
    then show "snd q \<noteq> [] \<and> hd (snd q) \<noteq> newline \<and> drop (rune_width (snd q)) (snd q) = [l]"
      unfolding step_Any_Literal by simp
  next
    assume "snd q \<noteq> [] \<and> hd (snd q) \<noteq> newline \<and> drop (rune_width (snd q)) (snd q) = [l]"
    then have "(False, []) \<in> set (step (Concat AnyCharNotNL (Literal l)) q)"
      unfolding step_Any_Literal by simp
    then show "\<exists>q' \<in> set (step (Concat AnyCharNotNL (Literal l)) q). snd q' = []"
      by (intro bexI [of _ "(False, [])"]) simp_all
  qed
  finally show ?thesis by blast
qed

lemma step_valueRegex:
  "step (Concat (Plus (CharClass rs)) r) (True, s) \<noteq> [] \<longleftrightarrow>
     (\<exists>q \<in> set (iterate (step (CharClass rs)) (Suc (length s)) (True, s)). step r q \<noteq> [])"
  unfolding step_Concat_nonempty by (simp only: step.simps snd_conv)

lemma MatchString_valueRegex:
  "MatchString valueRegex s \<longleftrightarrow>
     (\<exists>ds rest. s = ds @ rest \<and> ds \<noteq> [] \<and> (\<forall>c \<in> set ds. in_class digit_class c) \<and>
        (rest = [] \<or>
         (rest \<noteq> [] \<and> hd rest \<noteq> newline \<and> drop (rune_width rest) rest = ''+'')))"
  (is "?L \<longleftrightarrow> ?R")
proof -
  let ?tail = "\<lambda>rest. rest = [] \<or>
         (rest \<noteq> [] \<and> hd rest \<noteq> newline \<and> drop (rune_width rest) rest = ''+'')"
  have L: "?L \<longleftrightarrow>
      (\<exists>q \<in> set (iterate (step (CharClass digit_class)) (Suc (length s)) (True, s)). ?tail (snd q))"
    unfolding valueRegex_def MatchString_BeginText step_valueRegex step_Quest_tail ..
  show ?thesis
  proof
    assume ?L
    with L obtain q where q: "q \<in> set (iterate (step (CharClass digit_class)) (Suc (length s)) (True, s))"
      "?tail (snd q)" by blast
    from q(1) obtain ds where "ds \<noteq> []" "\<forall>c \<in> set ds. in_class digit_class c" "s = ds @ snd q"
      unfolding iterate_CharClass by blast
    with q(2) show ?R by blast
  next
    assume ?R
    then obtain ds rest where r: "s = ds @ rest" "ds \<noteq> []" "\<forall>c \<in> set ds. in_class digit_class c"
      "?tail rest" by blast
    have "(False, rest) \<in> set (iterate (step (CharClass digit_class)) (Suc (length s)) (True, s))"
      unfolding iterate_CharClass using r(1-3) by (intro exI [of _ ds]) simp
    with r(4) have "\<exists>q \<in> set (iterate (step (CharClass digit_class)) (Suc (length s)) (True, s)). ?tail (snd q)"
      by (intro bexI [of _ "(False, rest)"]) simp_all
    with L show ?L by blast
  qed
qed

subsection \<open>No match holds a newline\<close>

lemma of_char_newline: "(of_char newline :: nat) = 10"
  by (simp add: newline_def)

lemma text_class_not_newline:
  "in_class (word_class @ [(45, 45), (47, 47)]) c \<Longrightarrow> c \<noteq> newline"
  by (auto simp: in_class_def word_class_def of_char_newline)

lemma digit_class_not_newline: "in_class digit_class c \<Longrightarrow> c \<noteq> newline"
  by (auto simp: in_class_def digit_class_def of_char_newline)

lemma first_lo: "first x = Some (sz, lo, hi) \<Longrightarrow> 0x80 \<le> lo \<and> 2 \<le> sz \<and> sz \<le> 4"
  by (auto simp: first_def split: if_splits)

lemma take_2: "take 2 (a # b # xs) = [a, b]"
  by (simp add: numeral_2_eq_2)

lemma take_3: "take 3 (a # b # c # xs) = [a, b, c]"
  by (simp add: numeral_3_eq_3)

lemma take_4: "take 4 (a # b # c # d # xs) = [a, b, c, d]"
  by (simp add: eval_nat_numeral)

lemma rune_width_no_newline:
  assumes "c \<noteq> newline"
  shows "newline \<notin> set (take (rune_width (c # cs)) (c # cs))"
proof (cases "(of_char c :: nat) < 0x80")
  case True
  with assms show ?thesis by simp
next
  case False
  show ?thesis
  proof (cases "first (of_char c)")
    case None
    with False assms show ?thesis by simp
  next
    case (Some t)
    obtain sz lo hi where t: "t = (sz, lo, hi)" by (cases t)
    with Some have f: "first (of_char c) = Some (sz, lo, hi)" by simp
    from first_lo [OF f] have lo: "0x80 \<le> lo" and sz: "2 \<le> sz" "sz \<le> 4" by auto
    have cont: "\<And>d. between 0x80 0xBF d \<Longrightarrow> d \<noteq> newline"
      by (auto simp: between_def of_char_newline)
    have sec: "\<And>d. between lo hi d \<Longrightarrow> d \<noteq> newline"
      using lo by (auto simp: between_def of_char_newline)
    consider (w1) "rune_width (c # cs) = 1"
      | (w2) d ds where "cs = d # ds" "between lo hi d" "rune_width (c # cs) = 2"
      | (w3) d e ds where "cs = d # e # ds" "between lo hi d" "between 0x80 0xBF e"
          "rune_width (c # cs) = 3"
      | (w4) d e g ds where "cs = d # e # g # ds" "between lo hi d" "between 0x80 0xBF e"
          "between 0x80 0xBF g" "rune_width (c # cs) = 4"
    proof (cases cs)
      case Nil
      with False f sz have "rune_width (c # cs) = 1" by simp
      then show ?thesis by (rule w1)
    next
      case c1: (Cons d ds)
      show ?thesis
      proof (cases "between lo hi d")
        case False
        with \<open>\<not> of_char c < 0x80\<close> f c1 have "rune_width (c # cs) = 1" by simp
        then show ?thesis by (rule w1)
      next
        case bd: True
        show ?thesis
        proof (cases "sz \<le> 2")
          case True
          with \<open>\<not> of_char c < 0x80\<close> f c1 bd sz have "rune_width (c # cs) = 2" by simp
          with c1 bd show ?thesis by (rule w2)
        next
          case s3: False
          show ?thesis
          proof (cases ds)
            case Nil
            with \<open>\<not> of_char c < 0x80\<close> f c1 s3 have "rune_width (c # cs) = 1" by simp
            then show ?thesis by (rule w1)
          next
            case c2: (Cons e es)
            show ?thesis
            proof (cases "between 0x80 0xBF e")
              case False
              with \<open>\<not> of_char c < 0x80\<close> f c1 c2 s3 bd have "rune_width (c # cs) = 1" by simp
              then show ?thesis by (rule w1)
            next
              case be: True
              show ?thesis
              proof (cases "sz \<le> 3")
                case True
                with \<open>\<not> of_char c < 0x80\<close> f c1 c2 bd be s3
                have "rune_width (c # cs) = 3" by simp
                with c1 c2 bd be show ?thesis by (intro w3 [of d e es]) simp_all
              next
                case s4: False
                show ?thesis
                proof (cases es)
                  case Nil
                  with \<open>\<not> of_char c < 0x80\<close> f c1 c2 s3 s4 have "rune_width (c # cs) = 1"
                    by simp
                  then show ?thesis by (rule w1)
                next
                  case c3: (Cons g gs)
                  show ?thesis
                  proof (cases "between 0x80 0xBF g")
                    case False
                    with \<open>\<not> of_char c < 0x80\<close> f c1 c2 c3 s3 s4 bd be
                    have "rune_width (c # cs) = 1" by simp
                    then show ?thesis by (rule w1)
                  next
                    case True
                    with \<open>\<not> of_char c < 0x80\<close> f c1 c2 c3 s3 s4 bd be sz
                    have "rune_width (c # cs) = 4" by simp
                    with c1 c2 c3 bd be True show ?thesis by (intro w4 [of d e g gs]) simp_all
                  qed
                qed
              qed
            qed
          qed
        qed
      qed
    qed
    then show ?thesis
    proof cases
      case w1
      with assms show ?thesis by (auto simp del: rune_width.simps)
    next
      case w2
      with assms sec show ?thesis by (auto simp del: rune_width.simps simp: take_2)
    next
      case w3
      with assms sec cont show ?thesis by (auto simp del: rune_width.simps simp: take_3)
    next
      case w4
      with assms sec cont show ?thesis by (auto simp del: rune_width.simps simp: take_4)
    qed
  qed
qed

subsection \<open>What the dot admits\<close>

text \<open>
  After the digits, the value pattern admits any single ASCII character but the newline,
  provided a plus sign follows it.
\<close>

lemma valueRegex_any_ascii:
  assumes "c \<noteq> newline" and "(of_char c :: nat) < 0x80"
  shows "MatchString valueRegex (''1'' @ [c] @ ''+'')"
proof -
  have d: "\<forall>x \<in> set ''1''. in_class digit_class x"
    by (simp add: in_class_def digit_class_def)
  have w: "drop (rune_width ([c] @ ''+'')) ([c] @ ''+'') = ''+''"
    using assms(2) by simp
  show ?thesis
    unfolding MatchString_valueRegex
    using assms(1) d w by (intro exI [of _ "''1''"] exI [of _ "[c] @ ''+''"]) simp
qed

section \<open>Properties of validation and rendering\<close>

subsection \<open>The loops, in closed form\<close>

lemma tagStrings_eq:
  "tagStrings kvs acc = acc @ map (\<lambda>(k, v). k @ ''='' @ [dquote] @ v @ [dquote]) kvs"
  by (induction kvs arbitrary: acc) (auto simp: dquote_def)

lemma TagString_eq:
  "TagString m =
     (if Tags m = [] then []
      else ''{'' @ Join (map (\<lambda>(k, v). k @ ''='' @ [dquote] @ v @ [dquote]) (Tags m)) '','' @ ''}'')"
  by (simp add: TagString_def tagStrings_eq)

lemma validate_tags_Cons:
  "validate_tags (kv # kvs) \<longleftrightarrow>
     MatchString textRegex (fst kv) \<and> MatchString textRegex (snd kv) \<and> validate_tags kvs"
  by (cases kv) simp

lemma validate_tags_iff:
  "validate_tags kvs \<longleftrightarrow>
     (\<forall>kv \<in> set kvs. MatchString textRegex (fst kv) \<and> MatchString textRegex (snd kv))"
  by (induction kvs)
    (simp_all only: validate_tags.simps(1) validate_tags_Cons list.set ball_simps, blast)

text \<open>
  The loop over the tags returns at the first mismatch, but its result depends on the
  set of entries alone: the order in which the map is visited does not change it.
\<close>

lemma validate_tags_order:
  "set kvs = set kvs' \<Longrightarrow> validate_tags kvs = validate_tags kvs'"
  by (simp add: validate_tags_iff)

lemma validate_metrics_iff:
  "validate_metrics xs \<longleftrightarrow> (\<forall>x \<in> set xs. metric_Validate x)"
  by (induction xs) auto

lemma metricFile_String_loop_eq:
  "metricFile_String_loop xs sb = sb @ concat (map metric_String xs)"
  by (induction xs arbitrary: sb) auto

lemma value_5_matches: "MatchString valueRegex ''5''"
  by code_simp

lemma value_1_5_no_match: "\<not> MatchString valueRegex ''1.5''"
  by code_simp

subsection \<open>Validation of a metric\<close>

text \<open>
  C3. \<open>Validate\<close> of a metric is true exactly when the name and the type match
  \<open>textRegex\<close>, the value matches \<open>valueRegex\<close>, and every tag key and every tag value
  matches \<open>textRegex\<close>; a single mismatch makes it false.
\<close>

theorem metric_Validate_iff:
  "metric_Validate m \<longleftrightarrow>
     MatchString textRegex (Name m) \<and> MatchString textRegex (Type m) \<and>
     MatchString valueRegex (Value m) \<and>
     (\<forall>kv \<in> set (Tags m). MatchString textRegex (fst kv) \<and> MatchString textRegex (snd kv))"
  by (simp add: metric_Validate_def validate_tags_iff)

theorem metric_Validate_iff_witness:
  "metric_Validate
     \<lparr>Name = ''up'', Type = ''gauge'', Tags = [(''host'', ''web-1'')], Value = ''1''\<rparr> \<and>
   \<not> metric_Validate
     \<lparr>Name = ''up'', Type = ''gauge'', Tags = [(''host'', ''web 1'')], Value = ''1''\<rparr>"
proof -
  have a: "MatchString textRegex ''up''" by code_simp
  have b: "MatchString textRegex ''gauge''" by code_simp
  have c: "MatchString textRegex ''host''" by code_simp
  have d: "MatchString textRegex ''web-1''" by code_simp
  have e: "MatchString valueRegex ''1''" by code_simp
  have f: "\<not> MatchString textRegex ''web 1''" by code_simp
  show ?thesis
    using
      metric_Validate_iff [of "\<lparr>Name = ''up'', Type = ''gauge'',
        Tags = [(''host'', ''web-1'')], Value = ''1''\<rparr>"]
      metric_Validate_iff [of "\<lparr>Name = ''up'', Type = ''gauge'',
        Tags = [(''host'', ''web 1'')], Value = ''1''\<rparr>"]
      a b c d e f
    by simp
qed

text \<open>
  C4. Under the pattern as it is written, a metric whose other fields are valid fails
  \<open>Validate\<close> with the value \<open>1.5\<close> and passes it with the value \<open>5\<close>.
\<close>

theorem value_literal_pattern:
  assumes "MatchString textRegex (Name m)" and "MatchString textRegex (Type m)"
    and "validate_tags (Tags m)"
  shows "\<not> metric_Validate (m\<lparr>Value := ''1.5''\<rparr>) \<and> metric_Validate (m\<lparr>Value := ''5''\<rparr>)"
  using assms value_5_matches value_1_5_no_match by (simp add: metric_Validate_def)

theorem value_literal_pattern_witness:
  "\<not> metric_Validate
     \<lparr>Name = ''up'', Type = ''gauge'', Tags = [(''host'', ''web-1'')], Value = ''1.5''\<rparr> \<and>
   metric_Validate
     \<lparr>Name = ''up'', Type = ''gauge'', Tags = [(''host'', ''web-1'')], Value = ''5''\<rparr>"
proof -
  have a: "MatchString textRegex ''up''" by code_simp
  have b: "MatchString textRegex ''gauge''" by code_simp
  have c: "validate_tags [(''host'', ''web-1'')]" by code_simp
  show ?thesis
    using
      value_literal_pattern [of "\<lparr>Name = ''up'', Type = ''gauge'',
        Tags = [(''host'', ''web-1'')], Value = ''0''\<rparr>"]
      a b c
    by simp
qed

text \<open>
  C10. Metrics whose value is \<open>1 +\<close>, \<open>1"+\<close> or \<open>1{+\<close> pass validation, since the dot of
  the value pattern matches the space, the quote and the brace; the rendered text of the
  validated file then carries that character in the value of its sample line.
\<close>

theorem value_admits_space_quote_brace:
  "metricFile_Validate
     \<lparr>FileName = ''f'', Metrics = [\<lparr>Name = ''up'', Type = ''gauge'', Tags = [], Value = ''1 +''\<rparr>]\<rparr> \<and>
   metricFile_String
     \<lparr>FileName = ''f'', Metrics = [\<lparr>Name = ''up'', Type = ''gauge'', Tags = [], Value = ''1 +''\<rparr>]\<rparr>
     = ''# TYPE up gauge'' @ [newline] @ ''up 1 +'' @ [newline, newline] \<and>
   metricFile_Validate
     \<lparr>FileName = ''f'', Metrics = [\<lparr>Name = ''up'', Type = ''gauge'', Tags = [],
        Value = [CHR ''1'', dquote, CHR ''+'']\<rparr>]\<rparr> \<and>
   metricFile_String
     \<lparr>FileName = ''f'', Metrics = [\<lparr>Name = ''up'', Type = ''gauge'', Tags = [],
        Value = [CHR ''1'', dquote, CHR ''+'']\<rparr>]\<rparr>
     = ''# TYPE up gauge'' @ [newline] @ ''up 1'' @ [dquote] @ ''+'' @ [newline, newline] \<and>
   metricFile_Validate
     \<lparr>FileName = ''f'', Metrics = [\<lparr>Name = ''up'', Type = ''gauge'', Tags = [], Value = ''1{+''\<rparr>]\<rparr> \<and>
   metricFile_String
     \<lparr>FileName = ''f'', Metrics = [\<lparr>Name = ''up'', Type = ''gauge'', Tags = [], Value = ''1{+''\<rparr>]\<rparr>
     = ''# TYPE up gauge'' @ [newline] @ ''up 1{+'' @ [newline, newline]"
  by code_simp

subsection \<open>Validation and rendering of a metric file\<close>

text \<open>
  C6. \<open>Validate\<close> of a metric file is false when the name is empty or some metric of the
  file fails its own \<open>Validate\<close>, and true otherwise. A file with a name and no metric is
  valid, and renders as the empty text.
\<close>

theorem metricFile_Validate_iff:
  "(metricFile_Validate mf \<longleftrightarrow>
      FileName mf \<noteq> [] \<and> (\<forall>x \<in> set (Metrics mf). metric_Validate x)) \<and>
   (n \<noteq> [] \<longrightarrow>
      metricFile_Validate \<lparr>FileName = n, Metrics = []\<rparr> \<and>
      metricFile_String \<lparr>FileName = n, Metrics = []\<rparr> = [])"
  by (simp add: metricFile_Validate_def validate_metrics_iff metricFile_String_def)

theorem metricFile_Validate_iff_witness:
  "metricFile_Validate
     \<lparr>FileName = ''a'', Metrics = [\<lparr>Name = ''up'', Type = ''gauge'', Tags = [], Value = ''1''\<rparr>]\<rparr> \<and>
   \<not> metricFile_Validate
     \<lparr>FileName = [], Metrics = [\<lparr>Name = ''up'', Type = ''gauge'', Tags = [], Value = ''1''\<rparr>]\<rparr> \<and>
   \<not> metricFile_Validate
     \<lparr>FileName = ''a'', Metrics = [\<lparr>Name = ''u p'', Type = ''gauge'', Tags = [], Value = ''1''\<rparr>]\<rparr> \<and>
   metricFile_Validate \<lparr>FileName = ''a'', Metrics = []\<rparr> \<and>
   metricFile_String \<lparr>FileName = ''a'', Metrics = []\<rparr> = []"
proof -
  have a: "metric_Validate \<lparr>Name = ''up'', Type = ''gauge'', Tags = [], Value = ''1''\<rparr>"
    by code_simp
  have b: "\<not> metric_Validate \<lparr>Name = ''u p'', Type = ''gauge'', Tags = [], Value = ''1''\<rparr>"
    by code_simp
  show ?thesis
    using
      metricFile_Validate_iff [of "\<lparr>FileName = ''a'', Metrics =
        [\<lparr>Name = ''up'', Type = ''gauge'', Tags = [], Value = ''1''\<rparr>]\<rparr>" "''a''"]
      metricFile_Validate_iff [of "\<lparr>FileName = [], Metrics =
        [\<lparr>Name = ''up'', Type = ''gauge'', Tags = [], Value = ''1''\<rparr>]\<rparr>" "''a''"]
      metricFile_Validate_iff [of "\<lparr>FileName = ''a'', Metrics =
        [\<lparr>Name = ''u p'', Type = ''gauge'', Tags = [], Value = ''1''\<rparr>]\<rparr>" "''a''"]
      a b
    by simp
qed

section \<open>Properties of rendering\<close>

lemma textRegex_no_newline: "MatchString textRegex s \<Longrightarrow> newline \<notin> set s"
  unfolding MatchString_textRegex using text_class_not_newline by blast

lemma valueRegex_no_newline:
  assumes "MatchString valueRegex s"
  shows "newline \<notin> set s"
proof -
  from assms obtain ds rest where r: "s = ds @ rest" "\<forall>c \<in> set ds. in_class digit_class c"
    "rest = [] \<or> (rest \<noteq> [] \<and> hd rest \<noteq> newline \<and> drop (rune_width rest) rest = ''+'')"
    unfolding MatchString_valueRegex by blast
  from r(2) have ds: "newline \<notin> set ds" using digit_class_not_newline by blast
  have "newline \<notin> set rest"
  proof (cases rest)
    case Nil
    then show ?thesis by simp
  next
    case (Cons c cs)
    with r(3) have c: "c \<noteq> newline" and d: "drop (rune_width (c # cs)) (c # cs) = ''+''"
      by simp_all
    have "set rest = set (take (rune_width (c # cs)) (c # cs)) \<union> set (drop (rune_width (c # cs)) (c # cs))"
      unfolding Cons set_append [symmetric] append_take_drop_id ..
    with rune_width_no_newline [OF c, of cs] d show ?thesis
      by (simp add: newline_def)
  qed
  with ds r(1) show ?thesis by simp
qed

lemma Join_no_newline:
  "newline \<notin> set sep \<Longrightarrow> \<forall>x \<in> set xs. newline \<notin> set x \<Longrightarrow> newline \<notin> set (Join xs sep)"
  by (induction xs sep rule: Join.induct) auto

lemma TagString_no_newline:
  assumes "validate_tags (Tags m)"
  shows "newline \<notin> set (TagString m)"
proof -
  have "\<forall>x \<in> set (map (\<lambda>(k, v). k @ ''='' @ [dquote] @ v @ [dquote]) (Tags m)). newline \<notin> set x"
    using assms textRegex_no_newline
    by (auto simp: validate_tags_iff newline_def dquote_def)
  then have "newline \<notin> set (Join (map (\<lambda>(k, v). k @ ''='' @ [dquote] @ v @ [dquote]) (Tags m)) '','')"
    by (intro Join_no_newline) (simp_all add: newline_def)
  then show ?thesis
    by (simp add: TagString_eq newline_def)
qed

lemma metric_String_eq:
  "metric_String m =
     ''# TYPE '' @ Name m @ '' '' @ Type m @ [newline] @
     Name m @ TagString m @ '' '' @ Value m @ [newline] @
     [newline]"
  by (simp add: metric_String_def newline_def)

lemma metric_String_newlines:
  assumes "metric_Validate m"
  shows "count_list (metric_String m) newline = 3"
proof -
  from assms have n: "newline \<notin> set (Name m)" and t: "newline \<notin> set (Type m)"
    and v: "newline \<notin> set (Value m)" and g: "newline \<notin> set (TagString m)"
    by (auto simp: metric_Validate_def split: if_splits
        dest: textRegex_no_newline valueRegex_no_newline TagString_no_newline)
  have c: "\<And>xs. newline \<notin> set xs \<Longrightarrow> count_list xs newline = 0"
    by (simp add: count_list_0_iff)
  have lit: "count_list ''# TYPE '' newline = 0" "count_list '' '' newline = 0"
    by (simp_all add: newline_def)
  show ?thesis
    unfolding metric_String_eq count_list_append
    by (simp only: c [OF n] c [OF t] c [OF v] c [OF g] lit) simp
qed

text \<open>
  C5. The rendering of a metric is a type-comment line \<open># TYPE name type\<close>, a sample
  line made of the name, the tag block, a space and the value, and an empty line, each
  ended by a newline. The tag block is empty, without braces, when the metric has no tag;
  otherwise it is, between braces, the entries \<open>key="value"\<close> of all the tags in the
  order of iteration, separated by commas. The fields are copied as they are: for a metric
  that passes \<open>Validate\<close> no field holds a newline, so the rendering has exactly three
  newlines and is exactly these three lines.
\<close>

theorem metric_String_stanza:
  "metric_String m =
     (''# TYPE '' @ Name m @ '' '' @ Type m) @ [newline] @
     (Name m @ TagString m @ '' '' @ Value m) @ [newline] @
     [] @ [newline] \<and>
   (Tags m = [] \<longrightarrow> TagString m = []) \<and>
   (Tags m \<noteq> [] \<longrightarrow>
      TagString m =
        ''{'' @ Join (map (\<lambda>(k, v). k @ ''='' @ [dquote] @ v @ [dquote]) (Tags m)) '','' @ ''}'') \<and>
   (metric_Validate m \<longrightarrow> count_list (metric_String m) newline = 3)"
  using metric_String_eq [of m] TagString_eq [of m] metric_String_newlines [of m]
  by simp

theorem metric_String_stanza_witness:
  "metric_String \<lparr>Name = ''up'', Type = ''gauge'', Tags = [], Value = ''1''\<rparr> =
     ''# TYPE up gauge'' @ [newline] @ ''up 1'' @ [newline] @ [newline] \<and>
   metric_String \<lparr>Name = ''up'', Type = ''gauge'',
       Tags = [(''host'', ''web-1''), (''zone'', ''eu'')], Value = ''1''\<rparr> =
     ''# TYPE up gauge'' @ [newline] @
     ''up{host='' @ [dquote] @ ''web-1'' @ [dquote] @ '',zone='' @ [dquote] @ ''eu'' @ [dquote] @
     ''} 1'' @ [newline] @ [newline] \<and>
   count_list (metric_String \<lparr>Name = ''up'', Type = ''gauge'',
       Tags = [(''host'', ''web-1''), (''zone'', ''eu'')], Value = ''1''\<rparr>) newline = 3"
proof -
  let ?a = "\<lparr>Name = ''up'', Type = ''gauge'', Tags = [], Value = ''1''\<rparr>"
  let ?b = "\<lparr>Name = ''up'', Type = ''gauge'',
       Tags = [(''host'', ''web-1''), (''zone'', ''eu'')], Value = ''1''\<rparr>"
  have v: "metric_Validate ?b" by code_simp
  have 1: "metric_String ?a =
      ''# TYPE up gauge'' @ [newline] @ ''up 1'' @ [newline] @ [newline]"
    using metric_String_stanza [of ?a] by simp
  have 2: "metric_String ?b =
      ''# TYPE up gauge'' @ [newline] @
      ''up{host='' @ [dquote] @ ''web-1'' @ [dquote] @ '',zone='' @ [dquote] @ ''eu'' @ [dquote] @
      ''} 1'' @ [newline] @ [newline]"
    using metric_String_stanza [of ?b] by simp
  have 3: "count_list (metric_String ?b) newline = 3"
    using metric_String_stanza [of ?b] v by blast
  from 1 2 3 show ?thesis by (intro conjI)
qed

text \<open>
  Without validation the count of lines is not three for every metric: a value that holds a
  newline is copied into the sample line, and the rendering then has four newlines. Such
  a metric does not pass \<open>Validate\<close>, so the read path never renders it.
\<close>

theorem metric_String_newline_counterexample:
  "count_list
     (metric_String \<lparr>Name = ''up'', Type = ''gauge'', Tags = [],
        Value = [CHR ''1'', newline, CHR ''2'']\<rparr>) newline \<noteq> 3 \<and>
   count_list
     (metric_String \<lparr>Name = ''up'', Type = ''gauge'', Tags = [],
        Value = [CHR ''1'', newline, CHR ''2'']\<rparr>) newline = 4 \<and>
   \<not> metric_Validate \<lparr>Name = ''up'', Type = ''gauge'', Tags = [],
        Value = [CHR ''1'', newline, CHR ''2'']\<rparr>"
  by code_simp

section \<open>Properties of the read path\<close>

subsection \<open>Reading one object, and the loops\<close>

lemma readMetricFile_ok:
  assumes "decoded w c f = Some mf" and "metricFile_Validate mf"
  shows "readMetricFile w c f = (mf, None)"
  using assms by (auto simp: decoded_def readMetricFile_def split: sum.splits)

lemma readMetricFile_invalid:
  assumes "decoded w c f = Some mf" and "\<not> metricFile_Validate mf"
  shows "readMetricFile w c f = (zero_metricFile, Some (''failed validation for '' @ f))"
  using assms by (auto simp: decoded_def readMetricFile_def split: sum.splits)

lemma readMetricFile_undecoded:
  assumes "decoded w c f = None"
  shows "\<exists>e. readMetricFile w c f = (zero_metricFile, Some e)"
  using assms by (auto simp: decoded_def readMetricFile_def split: sum.splits)

lemma readMetricFile_bad:
  assumes "\<not> (\<exists>mf. decoded w c f = Some mf \<and> metricFile_Validate mf)"
  shows "\<exists>e. readMetricFile w c f = (zero_metricFile, Some e)"
proof (cases "decoded w c f")
  case None
  then show ?thesis by (rule readMetricFile_undecoded)
next
  case (Some mf)
  with assms have "\<not> metricFile_Validate mf" by simp
  with Some show ?thesis by (auto dest: readMetricFile_invalid)
qed

lemma readMetrics_loop_ok:
  assumes "\<forall>f \<in> set files. \<exists>mf. decoded w c f = Some mf \<and> metricFile_Validate mf"
  shows "readMetrics_loop w c files allMetrics =
     (allMetrics\<lparr>Metrics := Metrics allMetrics @ concat (map (\<lambda>f. Metrics (the (decoded w c f))) files)\<rparr>, None)"
  using assms
proof (induction files arbitrary: allMetrics)
  case Nil
  then show ?case by simp
next
  case (Cons f files)
  from Cons.prems obtain mf where mf: "decoded w c f = Some mf" "metricFile_Validate mf"
    by auto
  then have "readMetricFile w c f = (mf, None)" by (rule readMetricFile_ok)
  moreover from Cons.prems
  have "\<forall>g \<in> set files. \<exists>mf. decoded w c g = Some mf \<and> metricFile_Validate mf" by simp
  ultimately show ?case using Cons.IH mf by simp
qed

lemma readMetrics_loop_first_bad:
  assumes "\<forall>g \<in> set pre. \<exists>mf. decoded w c g = Some mf \<and> metricFile_Validate mf"
    and "readMetricFile w c f = (zero_metricFile, Some e)"
  shows "readMetrics_loop w c (pre @ f # post) allMetrics = (zero_metricFile, Some e)"
  using assms
proof (induction pre arbitrary: allMetrics)
  case Nil
  then show ?case by simp
next
  case (Cons g pre)
  from Cons.prems obtain mf where mf: "decoded w c g = Some mf" "metricFile_Validate mf"
    by auto
  then have "readMetricFile w c g = (mf, None)" by (rule readMetricFile_ok)
  then show ?case using Cons by simp
qed

lemma listMetricFiles_loop_empty:
  assumes "\<forall>p \<in> set pages. p = Inr []"
  shows "listMetricFiles_loop pages metricFiles = (metricFiles, None)"
  using assms by (induction pages arbitrary: metricFiles) auto

text \<open>When no page fails, the listing is the keys of the pages, in order.\<close>

lemma listMetricFiles_loop_ok:
  "listMetricFiles_loop (map Inr pages) metricFiles = (metricFiles @ concat pages, None)"
  by (induction pages arbitrary: metricFiles) auto

text \<open>When a page fails, the listing is empty and the error is that of the first such page.\<close>

lemma listMetricFiles_loop_error:
  "listMetricFiles_loop (map Inr pages @ Inl err # rest) metricFiles = ([], Some err)"
  by (induction pages arbitrary: metricFiles) auto

subsection \<open>The example store\<close>

lemma example_listing:
  "listMetricFiles (example_world keys) example_config = (keys, None)"
  by (simp add: listMetricFiles_def example_world_def example_config_def)

lemma example_decoded_a:
  "decoded (example_world keys) example_config ''a'' = Some \<lparr>FileName = ''a'', Metrics = [metric_up]\<rparr>"
  by (simp add: decoded_def example_world_def example_config_def example_GetObject_def
      example_Unmarshal_def)

lemma example_decoded_b:
  "decoded (example_world keys) example_config ''b'' = Some \<lparr>FileName = ''b'', Metrics = [metric_down]\<rparr>"
  by (simp add: decoded_def example_world_def example_config_def example_GetObject_def
      example_Unmarshal_def)

lemma example_decoded_x:
  "decoded (example_world keys) example_config ''x'' = Some \<lparr>FileName = [], Metrics = [metric_up]\<rparr>"
  by (simp add: decoded_def example_world_def example_config_def example_GetObject_def
      example_Unmarshal_def)

lemma example_valid_a: "metricFile_Validate \<lparr>FileName = ''a'', Metrics = [metric_up]\<rparr>"
  by code_simp

lemma example_valid_b: "metricFile_Validate \<lparr>FileName = ''b'', Metrics = [metric_down]\<rparr>"
  by code_simp

lemma example_invalid_x: "\<not> metricFile_Validate \<lparr>FileName = [], Metrics = [metric_up]\<rparr>"
  by code_simp

subsection \<open>Aggregation\<close>

text \<open>
  C1. When the listing succeeds and every listed object is fetched, read, decoded and
  validated with success, \<open>readMetrics\<close> returns no error and the file named \<open>__all__\<close>
  whose metrics are the metrics of the decoded files, one file after the other in the
  order of the listing, each file's metrics in their own order. On the example store with
  the objects \<open>a\<close> and \<open>b\<close> the rendered text is the stanza of \<open>up\<close> and then the stanza
  of \<open>down\<close>.
\<close>

theorem readMetrics_concat:
  assumes "listMetricFiles w c = (files, None)"
    and "\<forall>f \<in> set files. \<exists>mf. decoded w c f = Some mf \<and> metricFile_Validate mf"
  shows "readMetrics w c =
     (\<lparr>FileName = ''__all__'',
       Metrics = concat (map (\<lambda>f. Metrics (the (decoded w c f))) files)\<rparr>, None)"
  using assms by (simp add: readMetrics_def readMetrics_loop_ok)

theorem readMetrics_concat_witness:
  "readMetrics (example_world [''a'', ''b'']) example_config =
     (\<lparr>FileName = ''__all__'', Metrics = [metric_up, metric_down]\<rparr>, None) \<and>
   metricFile_String \<lparr>FileName = ''__all__'', Metrics = [metric_up, metric_down]\<rparr> =
     ''# TYPE up gauge'' @ [newline] @ ''up 1'' @ [newline, newline] @
     ''# TYPE down gauge'' @ [newline] @ ''down 0'' @ [newline, newline]"
proof
  have "\<forall>f \<in> set [''a'', ''b''].
      \<exists>mf. decoded (example_world [''a'', ''b'']) example_config f = Some mf \<and> metricFile_Validate mf"
    by (simp add: example_decoded_a example_decoded_b example_valid_a example_valid_b)
  from readMetrics_concat [OF example_listing this]
  show "readMetrics (example_world [''a'', ''b'']) example_config =
     (\<lparr>FileName = ''__all__'', Metrics = [metric_up, metric_down]\<rparr>, None)"
    by (simp add: example_decoded_a example_decoded_b)
next
  show "metricFile_String \<lparr>FileName = ''__all__'', Metrics = [metric_up, metric_down]\<rparr> =
     ''# TYPE up gauge'' @ [newline] @ ''up 1'' @ [newline, newline] @
     ''# TYPE down gauge'' @ [newline] @ ''down 0'' @ [newline, newline]"
    by code_simp
qed

text \<open>
  C2. When some listed object is not fetched, read, decoded and validated with success,
  \<open>readMetrics\<close> returns an error together with the empty metric file, so no metric of
  an object read before it is returned. When the first such object decodes and fails
  validation, the message of the error is \<open>failed validation for\<close> and the identifier of
  that object.
\<close>

theorem readMetrics_fail_fast:
  assumes "listMetricFiles w c = (files, None)"
    and "f \<in> set files"
    and "\<not> (\<exists>mf. decoded w c f = Some mf \<and> metricFile_Validate mf)"
  shows "(\<exists>e. readMetrics w c = (zero_metricFile, Some e)) \<and>
     (\<forall>pre post mf.
        files = pre @ f # post \<and>
        (\<forall>g \<in> set pre. \<exists>mg. decoded w c g = Some mg \<and> metricFile_Validate mg) \<and>
        decoded w c f = Some mf \<longrightarrow>
        readMetrics w c = (zero_metricFile, Some (''failed validation for '' @ f)))"
proof
  let ?ok = "\<lambda>g. \<exists>mf. decoded w c g = Some mf \<and> metricFile_Validate mf"
  from assms(2,3) have "\<exists>g \<in> set files. \<not> ?ok g" by blast
  then obtain pre g post where split: "files = pre @ g # post" "\<not> ?ok g" "\<forall>h \<in> set pre. ?ok h"
    by (auto simp: split_list_first_prop_iff)
  from split(2) obtain e where "readMetricFile w c g = (zero_metricFile, Some e)"
    using readMetricFile_bad by blast
  with split(3) have "readMetrics_loop w c (pre @ g # post) \<lparr>FileName = ''__all__'', Metrics = []\<rparr>
      = (zero_metricFile, Some e)"
    by (rule readMetrics_loop_first_bad)
  with split(1) assms(1) show "\<exists>e. readMetrics w c = (zero_metricFile, Some e)"
    by (simp add: readMetrics_def)
next
  show "\<forall>pre post mf.
        files = pre @ f # post \<and>
        (\<forall>g \<in> set pre. \<exists>mg. decoded w c g = Some mg \<and> metricFile_Validate mg) \<and>
        decoded w c f = Some mf \<longrightarrow>
        readMetrics w c = (zero_metricFile, Some (''failed validation for '' @ f))"
  proof (intro allI impI, elim conjE)
    fix pre post mf
    assume files: "files = pre @ f # post"
      and pre: "\<forall>g \<in> set pre. \<exists>mg. decoded w c g = Some mg \<and> metricFile_Validate mg"
      and dec: "decoded w c f = Some mf"
    from dec assms(3) have "\<not> metricFile_Validate mf" by simp
    with dec have "readMetricFile w c f = (zero_metricFile, Some (''failed validation for '' @ f))"
      by (rule readMetricFile_invalid)
    with pre have "readMetrics_loop w c (pre @ f # post) \<lparr>FileName = ''__all__'', Metrics = []\<rparr>
      = (zero_metricFile, Some (''failed validation for '' @ f))"
      by (rule readMetrics_loop_first_bad)
    with files assms(1) show "readMetrics w c = (zero_metricFile, Some (''failed validation for '' @ f))"
      by (simp add: readMetrics_def)
  qed
qed

theorem readMetrics_fail_fast_witness:
  "readMetrics (example_world [''a'', ''x'', ''b'']) example_config =
     (\<lparr>FileName = [], Metrics = []\<rparr>, Some ''failed validation for x'')"
proof -
  have bad: "\<not> (\<exists>mf. decoded (example_world [''a'', ''x'', ''b'']) example_config ''x'' = Some mf \<and>
      metricFile_Validate mf)"
    by (simp add: example_decoded_x example_invalid_x)
  have mem: "''x'' \<in> set [''a'', ''x'', ''b'']" by simp
  have pre: "\<forall>g \<in> set [''a''].
      \<exists>mg. decoded (example_world [''a'', ''x'', ''b'']) example_config g = Some mg \<and> metricFile_Validate mg"
    by (simp add: example_decoded_a example_valid_a)
  have split: "[''a'', ''x'', ''b''] = [''a''] @ ''x'' # [''b'']" by simp
  from readMetrics_fail_fast [OF example_listing mem bad] split pre example_decoded_x
  have "readMetrics (example_world [''a'', ''x'', ''b'']) example_config =
      (zero_metricFile, Some (''failed validation for '' @ ''x''))"
    by blast
  then show ?thesis by (simp add: zero_metricFile_def)
qed

text \<open>
  C9. When every page of the listing is empty, the listing is the empty list,
  \<open>readMetrics\<close> returns no error and the file named \<open>__all__\<close> with no metrics, and
  the read handler, once the client is loaded, succeeds with the empty text.
\<close>

theorem readMetrics_empty_listing:
  assumes "\<forall>p \<in> set (NextPage w (MetricBucket c)). p = Inr []"
  shows "listMetricFiles w c = ([], None) \<and>
     readMetrics w c = (\<lparr>FileName = ''__all__'', Metrics = []\<rparr>, None) \<and>
     (LoadDefaultConfig w = None \<longrightarrow> indexHandler w c = Succeed [])"
  using assms
  by (simp add: listMetricFiles_def listMetricFiles_loop_empty readMetrics_def indexHandler_def
      getClient_def metricFile_String_def)

theorem readMetrics_empty_listing_witness:
  "listMetricFiles (example_world []) example_config = ([], None) \<and>
   readMetrics (example_world []) example_config = (\<lparr>FileName = ''__all__'', Metrics = []\<rparr>, None) \<and>
   indexHandler (example_world []) example_config = Succeed []"
proof -
  have "\<forall>p \<in> set (NextPage (example_world []) (MetricBucket example_config)). p = Inr []"
    by (simp add: example_world_def example_config_def)
  from readMetrics_empty_listing [OF this] show ?thesis
    by (simp add: example_world_def)
qed

section \<open>Properties of the ingest path\<close>

text \<open>
  C7. When the body of the request does not decode, or does not unmarshal, or unmarshals
  to a file that fails validation (as one with an empty name does), \<open>metricHandler\<close>
  answers with a failure and calls \<open>PutObject\<close> not once. Whenever it calls
  \<open>PutObject\<close>, the body was decoded and unmarshalled to a file that passed validation.
\<close>

theorem metricHandler_store_after_validation:
  "(DecodedBody req = Inl e \<longrightarrow> (\<exists>msg. metricHandler w c req = (Fail msg, []))) \<and>
   (DecodedBody req = Inr body \<and> Unmarshal w body = Inl e \<longrightarrow>
      (\<exists>msg. metricHandler w c req = (Fail msg, []))) \<and>
   (DecodedBody req = Inr body \<and> Unmarshal w body = Inr mf \<and> \<not> metricFile_Validate mf \<longrightarrow>
      metricHandler w c req = (Fail ''failed validation'', [])) \<and>
   (DecodedBody req = Inr body \<and> Unmarshal w body = Inr mf \<and> FileName mf = [] \<longrightarrow>
      metricHandler w c req = (Fail ''failed validation'', [])) \<and>
   (snd (metricHandler w c req) \<noteq> [] \<longrightarrow>
      (\<exists>b f. DecodedBody req = Inr b \<and> Unmarshal w b = Inr f \<and> metricFile_Validate f))"
  by (auto simp: metricHandler_def metricFile_Validate_def split: sum.splits option.splits)

theorem metricHandler_store_after_validation_witness:
  "(\<exists>msg. metricHandler (example_world []) example_config
      \<lparr>DecodedBody = Inl ''illegal base64 data''\<rparr> = (Fail msg, [])) \<and>
   (\<exists>msg. metricHandler (example_world []) example_config
      \<lparr>DecodedBody = Inr ''{''\<rparr> = (Fail msg, [])) \<and>
   metricHandler (example_world []) example_config \<lparr>DecodedBody = Inr ''doc-x''\<rparr>
     = (Fail ''failed validation'', []) \<and>
   metricHandler (example_world []) example_config \<lparr>DecodedBody = Inr ''doc-a''\<rparr>
     = (Succeed [], [(''bucket'', ''a'', ''doc-a'')]) \<and>
   (\<exists>b f. Inr ''doc-a'' = (Inr b :: error + string) \<and>
      Unmarshal (example_world []) b = Inr f \<and> metricFile_Validate f)"
proof -
  let ?w = "example_world []"
  have x: "Unmarshal ?w ''doc-x'' = Inr \<lparr>FileName = [], Metrics = [metric_up]\<rparr>"
    by (simp add: example_world_def example_Unmarshal_def)
  have a: "Unmarshal ?w ''doc-a'' = Inr \<lparr>FileName = ''a'', Metrics = [metric_up]\<rparr>"
    by (simp add: example_world_def example_Unmarshal_def)
  have y: "Unmarshal ?w ''{'' = Inl ''unexpected end of JSON input''"
    by (simp add: example_world_def example_Unmarshal_def)
  have 1: "\<exists>msg. metricHandler ?w example_config \<lparr>DecodedBody = Inl ''illegal base64 data''\<rparr>
      = (Fail msg, [])"
    using metricHandler_store_after_validation
      [of "\<lparr>DecodedBody = Inl ''illegal base64 data''\<rparr>" "''illegal base64 data''"
        ?w example_config]
    by simp
  have 2: "\<exists>msg. metricHandler ?w example_config \<lparr>DecodedBody = Inr ''{''\<rparr> = (Fail msg, [])"
    using metricHandler_store_after_validation
      [of "\<lparr>DecodedBody = Inr ''{''\<rparr>" "''unexpected end of JSON input''"
        ?w example_config "''{''"] y
    by simp
  have 3: "metricHandler ?w example_config \<lparr>DecodedBody = Inr ''doc-x''\<rparr>
      = (Fail ''failed validation'', [])"
    using metricHandler_store_after_validation
      [of "\<lparr>DecodedBody = Inr ''doc-x''\<rparr>" _ ?w example_config "''doc-x''"
        "\<lparr>FileName = [], Metrics = [metric_up]\<rparr>"] x
    by simp
  have 4: "metricHandler ?w example_config \<lparr>DecodedBody = Inr ''doc-a''\<rparr>
      = (Succeed [], [(''bucket'', ''a'', ''doc-a'')])"
    using a example_valid_a
    by (simp add: metricHandler_def getClient_def example_world_def example_config_def)
  have 5: "\<exists>b f. Inr ''doc-a'' = (Inr b :: error + string) \<and>
      Unmarshal ?w b = Inr f \<and> metricFile_Validate f"
    using metricHandler_store_after_validation
      [of "\<lparr>DecodedBody = Inr ''doc-a''\<rparr>" _ ?w example_config] 4
    by simp
  from 1 2 3 4 5 show ?thesis by simp
qed

end
